theory Spec2Isabelle
  imports Main "HOL-Library.AList" "HOL-Library.Multiset"
begin

section \<open>Calendar dates and decimal strings\<close>

text \<open>
  The streak store keeps dates as ISO strings and compares them in two ways: as strings
  (\<^verbatim>\<open>last_date == current_date\<close>) and, after \<^verbatim>\<open>date.fromisoformat\<close>, by the whole-day
  difference \<^verbatim>\<open>(curr - last).days\<close>. Both are library functions of Python's
  \<^verbatim>\<open>datetime\<close>; they are modelled here after \<^verbatim>\<open>Lib/datetime.py\<close>: a date is a
  year, a month and a day in range, its ordinal is the proleptic Gregorian day number,
  and the difference of two dates is the difference of their ordinals.
  Strings are byte strings: the identifiers and dates the bot stores are produced by
  \<^verbatim>\<open>str\<close> and \<^verbatim>\<open>isoformat\<close> and are ASCII.
\<close>

record date =
  year :: nat
  month :: nat
  day :: nat

definition is_leap :: "nat \<Rightarrow> bool" where
  "is_leap y \<longleftrightarrow> y mod 4 = 0 \<and> (y mod 100 \<noteq> 0 \<or> y mod 400 = 0)"

definition days_in_month :: "nat \<Rightarrow> nat \<Rightarrow> nat" where
  "days_in_month y m =
     (if m = 2 \<and> is_leap y then 29
      else [0, 31, 28, 31, 30, 31, 30, 31, 31, 30, 31, 30, 31] ! m)"

definition days_before_year :: "nat \<Rightarrow> int" where
  "days_before_year yr = (let y = int yr - 1 in y * 365 + y div 4 - y div 100 + y div 400)"

definition days_before_month :: "nat \<Rightarrow> nat \<Rightarrow> int" where
  "days_before_month y m =
     [0, 0, 31, 59, 90, 120, 151, 181, 212, 243, 273, 304, 334] ! m
       + (if m > 2 \<and> is_leap y then 1 else 0)"

definition toordinal :: "date \<Rightarrow> int" where
  "toordinal d =
     days_before_year (year d) + days_before_month (year d) (month d) + int (day d)"

text \<open>The range check of the \<^verbatim>\<open>date\<close> constructor (\<^verbatim>\<open>MINYEAR = 1\<close>, \<^verbatim>\<open>MAXYEAR = 9999\<close>).\<close>

definition valid_date :: "date \<Rightarrow> bool" where
  "valid_date d \<longleftrightarrow>
     1 \<le> year d \<and> year d \<le> 9999 \<and> 1 \<le> month d \<and> month d \<le> 12 \<and>
     1 \<le> day d \<and> day d \<le> days_in_month (year d) (month d)"

definition new_date :: "nat \<Rightarrow> nat \<Rightarrow> nat \<Rightarrow> date option" where
  "new_date y m d =
     (let dt = \<lparr>year = y, month = m, day = d\<rparr> in if valid_date dt then Some dt else None)"

definition digit_char :: "nat \<Rightarrow> char" where
  "digit_char n = ''0123456789'' ! n"

definition digit_val :: "char \<Rightarrow> nat option" where
  "digit_val c =
     (let k = (of_char c :: nat) in if 48 \<le> k \<and> k \<le> 57 then Some (k - 48) else None)"

text \<open>The value of a run of decimal digits, most significant first; \<open>None\<close> at a
  character that is not a digit.\<close>

fun digits_acc :: "nat \<Rightarrow> string \<Rightarrow> nat option" where
  "digits_acc n [] = Some n"
| "digits_acc n (c # cs) =
     (case digit_val c of None \<Rightarrow> None | Some k \<Rightarrow> digits_acc (10 * n + k) cs)"

text \<open>\<^verbatim>\<open>date.isoformat()\<close>: \<^verbatim>\<open>"%04d-%02d-%02d" % (year, month, day)\<close>.\<close>

definition isoformat :: "date \<Rightarrow> string" where
  "isoformat d =
     [digit_char (year d div 1000 mod 10), digit_char (year d div 100 mod 10),
      digit_char (year d div 10 mod 10), digit_char (year d mod 10), CHR ''-'',
      digit_char (month d div 10 mod 10), digit_char (month d mod 10), CHR ''-'',
      digit_char (day d div 10 mod 10), digit_char (day d mod 10)]"

text \<open>
  \<^verbatim>\<open>date.fromisoformat(s)\<close> as CPython 3.11 and later implement it
  (\<^verbatim>\<open>date_fromisoformat\<close>, \<^verbatim>\<open>parse_isoformat_date\<close> and \<^verbatim>\<open>iso_to_ymd\<close> in
  \<^verbatim>\<open>Modules/_datetimemodule.c\<close>). The string has 7, 8 or 10 bytes. After the four
  digits of the year come either month and day (\<^verbatim>\<open>YYYY-MM-DD\<close>, \<^verbatim>\<open>YYYYMMDD\<close>) or an ISO
  week and an optional day of the week (\<^verbatim>\<open>YYYY-Www-D\<close>, \<^verbatim>\<open>YYYYWwwD\<close>, \<^verbatim>\<open>YYYY-Www\<close>,
  \<^verbatim>\<open>YYYYWww\<close>); the hyphens are used throughout or not at all, and bytes after the
  last field are not looked at. The result passes the constructor's range check.
  \<open>None\<close> stands for the \<^verbatim>\<open>ValueError\<close> raised otherwise. (Python up to 3.10 reads
  \<^verbatim>\<open>YYYY-MM-DD\<close> only, with the same result.)
\<close>

text \<open>\<^verbatim>\<open>parse_digits\<close>: exactly \<open>n\<close> decimal digits, with the rest of the string.\<close>

definition parse_digits :: "nat \<Rightarrow> string \<Rightarrow> (nat \<times> string) option" where
  "parse_digits n s =
     (if length s < n then None
      else (case digits_acc 0 (take n s) of None \<Rightarrow> None | Some v \<Rightarrow> Some (v, drop n s)))"

definition ymd_to_ord :: "nat \<Rightarrow> nat \<Rightarrow> nat \<Rightarrow> int" where
  "ymd_to_ord y m d = days_before_year y + days_before_month y m + int d"

text \<open>\<^verbatim>\<open>weekday\<close>: 0 for a Monday; \<^verbatim>\<open>iso_week1_monday\<close>: the ordinal of the Monday
  that starts ISO week 1 of the year.\<close>

definition weekday :: "nat \<Rightarrow> nat \<Rightarrow> nat \<Rightarrow> int" where
  "weekday y m d = (ymd_to_ord y m d + 6) mod 7"

definition iso_week1_monday :: "nat \<Rightarrow> int" where
  "iso_week1_monday y =
     (let first_day = ymd_to_ord y 1 1;
          first_weekday = (first_day + 6) mod 7;
          week1_monday = first_day - first_weekday
      in if first_weekday > 3 then week1_monday + 7 else week1_monday)"

text \<open>\<^verbatim>\<open>ord_to_ymd\<close>, for an ordinal of at least 1: the 400-, 100-, 4- and 1-year
  cycles, then the month from an estimate that is corrected when it is too large.\<close>

definition ord_to_ymd :: "int \<Rightarrow> date" where
  "ord_to_ymd ordinal =
     (let n400 = (ordinal - 1) div 146097;
          r400 = (ordinal - 1) mod 146097;
          n100 = r400 div 36524;
          r100 = r400 mod 36524;
          n4 = r100 div 1461;
          r4 = r100 mod 1461;
          n1 = r4 div 365;
          n = r4 mod 365;
          y = n400 * 400 + 1 + n100 * 100 + n4 * 4 + n1
      in if n1 = 4 \<or> n100 = 4 then \<lparr>year = nat (y - 1), month = 12, day = 31\<rparr>
         else
           (let leapyear = (n1 = 3 \<and> (n4 \<noteq> 24 \<or> n100 = 3));
                m = nat ((n + 50) div 32);
                preceding =
                  [0, 0, 31, 59, 90, 120, 151, 181, 212, 243, 273, 304, 334] ! m
                    + (if m > 2 \<and> leapyear then 1 else 0)
            in if preceding > n
               then \<lparr>year = nat y, month = m - 1,
                      day = nat (n - (preceding - int (days_in_month (nat y) (m - 1))) + 1)\<rparr>
               else \<lparr>year = nat y, month = m, day = nat (n - preceding + 1)\<rparr>))"

text \<open>
  \<^verbatim>\<open>iso_to_ymd\<close>, followed by the constructor. Week 53 exists in a year that starts on
  a Thursday, or on a Wednesday when it is a leap year. For the year 0000 the ordinal
  computed is never positive; the C code's result is then refused by the constructor.
\<close>

definition iso_to_ymd :: "nat \<Rightarrow> nat \<Rightarrow> nat \<Rightarrow> date option" where
  "iso_to_ymd iso_year iso_week iso_day =
     (if (iso_week \<le> 0 \<or> iso_week \<ge> 53) \<and>
         \<not> (iso_week = 53 \<and>
            (weekday iso_year 1 1 = 3 \<or> (weekday iso_year 1 1 = 2 \<and> is_leap iso_year)))
      then None
      else if iso_day \<le> 0 \<or> iso_day \<ge> 8 then None
      else
        (let ordinal = iso_week1_monday iso_year + (int iso_week - 1) * 7 + int iso_day - 1
         in if ordinal < 1 then None
            else (let d = ord_to_ymd ordinal in new_date (year d) (month d) (day d))))"

definition fromisoformat :: "string \<Rightarrow> date option" where
  "fromisoformat s =
     (if length s \<noteq> 7 \<and> length s \<noteq> 8 \<and> length s \<noteq> 10 then None
      else
        (case parse_digits 4 s of
           None \<Rightarrow> None
         | Some (y, p1) \<Rightarrow>
             (let uses_separator = (take 1 p1 = ''-'');
                  p2 = (if uses_separator then drop 1 p1 else p1)
              in if take 1 p2 = ''W'' then
                   (case parse_digits 2 (drop 1 p2) of
                      None \<Rightarrow> None
                    | Some (iso_week, p3) \<Rightarrow>
                        if p3 \<noteq> [] then
                          (if uses_separator \<and> take 1 p3 \<noteq> ''-'' then None
                           else
                             (case parse_digits 1 (if uses_separator then drop 1 p3 else p3) of
                                None \<Rightarrow> None
                              | Some (iso_day, p4) \<Rightarrow> iso_to_ymd y iso_week iso_day))
                        else iso_to_ymd y iso_week 1)
                 else
                   (case parse_digits 2 p2 of
                      None \<Rightarrow> None
                    | Some (m, p3) \<Rightarrow>
                        if uses_separator \<and> take 1 p3 \<noteq> ''-'' then None
                        else
                          (case parse_digits 2 (if uses_separator then drop 1 p3 else p3) of
                             None \<Rightarrow> None
                           | Some (d, p4) \<Rightarrow> new_date y m d)))))"

text \<open>\<^verbatim>\<open>str(n)\<close> of an integer, \<^verbatim>\<open>s.isdigit()\<close> and \<^verbatim>\<open>int(s)\<close> of a string (an optional
  sign, then digits).\<close>

fun nat_digits :: "nat \<Rightarrow> string" where
  "nat_digits n =
     (if n < 10 then [digit_char n] else nat_digits (n div 10) @ [digit_char (n mod 10)])"

declare nat_digits.simps [simp del]

definition py_str :: "int \<Rightarrow> string" where
  "py_str i = (if i < 0 then CHR ''-'' # nat_digits (nat (- i)) else nat_digits (nat i))"

definition isdigit :: "string \<Rightarrow> bool" where
  "isdigit s \<longleftrightarrow> s \<noteq> [] \<and> list_all (\<lambda>c. digit_val c \<noteq> None) s"

definition digits_val :: "string \<Rightarrow> int option" where
  "digits_val s = (if s = [] then None else map_option int (digits_acc 0 s))"

definition py_int :: "string \<Rightarrow> int option" where
  "py_int s =
     (case s of
        [] \<Rightarrow> None
      | c # cs \<Rightarrow>
          if c = CHR ''-'' then map_option uminus (digits_val cs)
          else if c = CHR ''+'' then digits_val cs
          else digits_val s)"

section \<open>The streak store (\<^verbatim>\<open>streak_manager.py\<close>)\<close>

text \<open>
  The JSON document is \<^verbatim>\<open>{"guilds": {guild_id: {"streak_channel_id", "users",
  "role_rewards"}}}\<close>. A Python dict keeps its keys in insertion order, and the
  leaderboard and the reward loops iterate in that order, so a dict is an association
  list: \<^verbatim>\<open>d[k] = v\<close> is \<open>AList.update\<close> (in place for a key that is there, at the end
  for a new one), \<^verbatim>\<open>d.pop(k, None)\<close> is \<open>AList.delete\<close>, \<^verbatim>\<open>d.get(k)\<close> is \<open>map_of\<close>.
  The records have the fields the module's docstring and \<^verbatim>\<open>ensure_guild\<close> give them.
\<close>

record user_data =
  streak :: int
  last_date :: "string option"

record guild_data =
  streak_channel_id :: "string option"
  users :: "(string \<times> user_data) list"
  role_rewards :: "(string \<times> string) list"

text \<open>
  The manager: \<open>guilds\<close> is \<^verbatim>\<open>self._data["guilds"]\<close>, the document in memory, and
  \<open>disk\<close> is the document in the JSON file (\<open>None\<close> while there is no file). The
  lock and the \<^verbatim>\<open>await\<close>s are not modelled: an operation runs from start to end, and
  the file write of \<^verbatim>\<open>_save_data\<close> succeeds.
\<close>

record manager =
  guilds :: "(string \<times> guild_data) list"
  disk :: "(string \<times> guild_data) list option"

datatype error = KeyError | ValueError

definition load_data :: "(string \<times> guild_data) list option \<Rightarrow> manager" where
  "load_data f = \<lparr>guilds = (case f of None \<Rightarrow> [] | Some d \<Rightarrow> d), disk = f\<rparr>"

definition save_data :: "manager \<Rightarrow> manager" where
  "save_data s = s\<lparr>disk := Some (guilds s)\<rparr>"

definition new_guild :: guild_data where
  "new_guild = \<lparr>streak_channel_id = None, users = [], role_rewards = []\<rparr>"

definition ensure_guild :: "manager \<Rightarrow> string \<Rightarrow> manager" where
  "ensure_guild s guild_id =
     (if map_of (guilds s) guild_id = None
      then s\<lparr>guilds := AList.update guild_id new_guild (guilds s)\<rparr>
      else s)"

definition set_streak_channel :: "manager \<Rightarrow> string \<Rightarrow> string \<Rightarrow> (error + unit) \<times> manager" where
  "set_streak_channel s guild_id channel_id =
     (let s1 = ensure_guild s guild_id in
      case map_of (guilds s1) guild_id of
        None \<Rightarrow> (Inl KeyError, s1)
      | Some gd \<Rightarrow>
          (Inr (), save_data (s1\<lparr>guilds :=
             AList.update guild_id (gd\<lparr>streak_channel_id := Some channel_id\<rparr>) (guilds s1)\<rparr>)))"

definition unset_streak_channel :: "manager \<Rightarrow> string \<Rightarrow> (error + unit) \<times> manager" where
  "unset_streak_channel s guild_id =
     (let s1 = ensure_guild s guild_id in
      case map_of (guilds s1) guild_id of
        None \<Rightarrow> (Inl KeyError, s1)
      | Some gd \<Rightarrow>
          (Inr (), save_data (s1\<lparr>guilds :=
             AList.update guild_id (gd\<lparr>streak_channel_id := None\<rparr>) (guilds s1)\<rparr>)))"

definition get_streak_channel :: "manager \<Rightarrow> string \<Rightarrow> (error + string option) \<times> manager" where
  "get_streak_channel s guild_id =
     (let s1 = ensure_guild s guild_id in
      case map_of (guilds s1) guild_id of
        None \<Rightarrow> (Inl KeyError, s1)
      | Some gd \<Rightarrow> (Inr (streak_channel_id gd), s1))"

text \<open>
  The streak decision of \<^verbatim>\<open>record_streak\<close> (the body of its \<^verbatim>\<open>else\<close> branch): the
  day difference is \<open>None\<close> when either string fails to parse (\<^verbatim>\<open>except Exception\<close>),
  and \<^verbatim>\<open>if last_date:\<close> is false for \<^verbatim>\<open>None\<close> and for the empty string.
\<close>

definition day_diff :: "string \<Rightarrow> string \<Rightarrow> int option" where
  "day_diff last_s curr_s =
     (case fromisoformat last_s of
        None \<Rightarrow> None
      | Some l \<Rightarrow>
          (case fromisoformat curr_s of
             None \<Rightarrow> None
           | Some c \<Rightarrow> Some (toordinal c - toordinal l)))"

definition truthy :: "string option \<Rightarrow> bool" where
  "truthy v \<longleftrightarrow> (case v of None \<Rightarrow> False | Some str \<Rightarrow> str \<noteq> [])"

definition next_user_data :: "user_data \<Rightarrow> string \<Rightarrow> user_data" where
  "next_user_data ud current_date =
     (if last_date ud = Some current_date then ud
      else
        (let new_streak =
           (if truthy (last_date ud) then
              (if (case last_date ud of None \<Rightarrow> None | Some l \<Rightarrow> day_diff l current_date) = Some 1
               then streak ud + 1
               else 1)
            else 1)
         in ud\<lparr>streak := new_streak, last_date := Some current_date\<rparr>))"

definition record_streak ::
  "manager \<Rightarrow> string \<Rightarrow> string \<Rightarrow> string \<Rightarrow> (error + int) \<times> manager" where
  "record_streak s guild_id user_id current_date =
     (let s1 = ensure_guild s guild_id in
      case map_of (guilds s1) guild_id of
        None \<Rightarrow> (Inl KeyError, s1)
      | Some gd \<Rightarrow>
          (let users1 =
                 (if map_of (users gd) user_id = None
                  then AList.update user_id \<lparr>streak = 0, last_date = None\<rparr> (users gd)
                  else users gd);
               ud = (case map_of users1 user_id of
                       None \<Rightarrow> \<lparr>streak = 0, last_date = None\<rparr>
                     | Some d \<Rightarrow> d);
               ud' = next_user_data ud current_date;
               users2 = AList.update user_id ud' users1;
               s2 = s1\<lparr>guilds := AList.update guild_id (gd\<lparr>users := users2\<rparr>) (guilds s1)\<rparr>
           in (Inr (streak ud'), save_data s2)))"

definition remove_user_streak :: "manager \<Rightarrow> string \<Rightarrow> string \<Rightarrow> (error + unit) \<times> manager" where
  "remove_user_streak s guild_id user_id =
     (let s1 = ensure_guild s guild_id in
      case map_of (guilds s1) guild_id of
        None \<Rightarrow> (Inl KeyError, s1)
      | Some gd \<Rightarrow>
          (let users1 =
                 (case map_of (users gd) user_id of
                    None \<Rightarrow> users gd
                  | Some ud \<Rightarrow>
                      AList.update user_id (ud\<lparr>streak := 0, last_date := None\<rparr>) (users gd));
               s2 = s1\<lparr>guilds := AList.update guild_id (gd\<lparr>users := users1\<rparr>) (guilds s1)\<rparr>
           in (Inr (), save_data s2)))"

definition set_role_reward ::
  "manager \<Rightarrow> string \<Rightarrow> int \<Rightarrow> string \<Rightarrow> (error + unit) \<times> manager" where
  "set_role_reward s guild_id days role_id =
     (let s1 = ensure_guild s guild_id in
      case map_of (guilds s1) guild_id of
        None \<Rightarrow> (Inl KeyError, s1)
      | Some gd \<Rightarrow>
          (let rewards = AList.update (py_str days) role_id (role_rewards gd);
               s2 = s1\<lparr>guilds := AList.update guild_id (gd\<lparr>role_rewards := rewards\<rparr>) (guilds s1)\<rparr>
           in (Inr (), save_data s2)))"

definition remove_role_reward :: "manager \<Rightarrow> string \<Rightarrow> int \<Rightarrow> (error + unit) \<times> manager" where
  "remove_role_reward s guild_id days =
     (let s1 = ensure_guild s guild_id in
      case map_of (guilds s1) guild_id of
        None \<Rightarrow> (Inl KeyError, s1)
      | Some gd \<Rightarrow>
          (let rewards = AList.delete (py_str days) (role_rewards gd);
               s2 = s1\<lparr>guilds := AList.update guild_id (gd\<lparr>role_rewards := rewards\<rparr>) (guilds s1)\<rparr>
           in (Inr (), save_data s2)))"

text \<open>The dict comprehension of \<^verbatim>\<open>get_role_rewards\<close>:
  \<^verbatim>\<open>{int(k): str(v) for k, v in rewards.items() if k.isdigit()}\<close>, built from left to
  right into \<open>acc\<close>.\<close>

fun int_keys :: "(string \<times> string) list \<Rightarrow> (int \<times> string) list \<Rightarrow> error + (int \<times> string) list" where
  "int_keys [] acc = Inr acc"
| "int_keys ((k, v) # kvs) acc =
     (if isdigit k then
        (case py_int k of
           None \<Rightarrow> Inl ValueError
         | Some i \<Rightarrow> int_keys kvs (AList.update i v acc))
      else int_keys kvs acc)"

definition get_role_rewards ::
  "manager \<Rightarrow> string \<Rightarrow> (error + (int \<times> string) list) \<times> manager" where
  "get_role_rewards s guild_id =
     (let s1 = ensure_guild s guild_id in
      case map_of (guilds s1) guild_id of
        None \<Rightarrow> (Inl KeyError, s1)
      | Some gd \<Rightarrow> (int_keys (role_rewards gd) [], s1))"

definition get_user_streak :: "manager \<Rightarrow> string \<Rightarrow> string \<Rightarrow> (error + int) \<times> manager" where
  "get_user_streak s guild_id user_id =
     (let s1 = ensure_guild s guild_id in
      case map_of (guilds s1) guild_id of
        None \<Rightarrow> (Inl KeyError, s1)
      | Some gd \<Rightarrow>
          (Inr (case map_of (users gd) user_id of None \<Rightarrow> 0 | Some ud \<Rightarrow> streak ud), s1))"

text \<open>\<^verbatim>\<open>leaderboard.sort(key=lambda x: x[1], reverse=True)\<close> is a stable sort by
  descending streak; \<open>sort_key\<close> is stable, so the key is the negated streak.\<close>

definition get_leaderboard ::
  "manager \<Rightarrow> string \<Rightarrow> (error + (string \<times> int) list) \<times> manager" where
  "get_leaderboard s guild_id =
     (let s1 = ensure_guild s guild_id in
      case map_of (guilds s1) guild_id of
        None \<Rightarrow> (Inl KeyError, s1)
      | Some gd \<Rightarrow>
          (let leaderboard =
                 map (\<lambda>(user_id, ud). (user_id, streak ud))
                     (filter (\<lambda>(user_id, ud). streak ud > 0) (users gd))
           in (Inr (sort_key (\<lambda>x. - snd x) leaderboard), s1)))"

section \<open>The bot (\<^verbatim>\<open>bot.py\<close>)\<close>

text \<open>
  What the bot reads from Discord is a parameter of the model: a guild object is the list
  of the ids of its roles (\<^verbatim>\<open>guild.get_role(id)\<close> is \<^verbatim>\<open>None\<close> for any other id) and
  its members, each with the ids of the roles the member holds (\<^verbatim>\<open>member.roles\<close>).
  A role object is identified by its id, as discord.py compares roles.
\<close>

record discord_guild =
  roles :: "int list"
  members :: "(int \<times> int list) list"

definition get_role :: "discord_guild \<Rightarrow> int \<Rightarrow> int option" where
  "get_role g rid = (if rid \<in> set (roles g) then Some rid else None)"

definition get_member :: "discord_guild \<Rightarrow> int \<Rightarrow> int list option" where
  "get_member g uid = map_of (members g) uid"

text \<open>The command \<^verbatim>\<open>!addrole <days> <role>\<close>: \<^verbatim>\<open>guild\<close> is \<^verbatim>\<open>ctx.guild.id\<close> and
  \<^verbatim>\<open>role\<close> is \<^verbatim>\<open>role.id\<close>; the replies sent to the channel are not modelled.\<close>

definition add_role :: "manager \<Rightarrow> int \<Rightarrow> int \<Rightarrow> int \<Rightarrow> (error + unit) \<times> manager" where
  "add_role s guild days role =
     (if days \<le> 0 then (Inr (), s)
      else set_role_reward s (py_str guild) days (py_str role))"

text \<open>
  The reward step of \<^verbatim>\<open>on_message\<close>, after \<^verbatim>\<open>record_streak\<close> has returned
  \<^verbatim>\<open>streak_count\<close>. \<open>roles_to_add\<close> is the loop over \<^verbatim>\<open>rewards.items()\<close>;
  \<open>reward_roles\<close> is the \<^verbatim>\<open>try\<close> block around it and returns the roles handed to
  \<^verbatim>\<open>member.add_roles\<close> (none when the block is left early or by an exception, which
  is caught and printed).
\<close>

fun roles_to_add ::
  "int \<Rightarrow> (int \<times> string) list \<Rightarrow> discord_guild \<Rightarrow> int list \<Rightarrow> int list \<Rightarrow> error + int list" where
  "roles_to_add streak_count [] g member_roles acc = Inr acc"
| "roles_to_add streak_count ((days_threshold, role_id) # rest) g member_roles acc =
     (if streak_count \<ge> days_threshold then
        (case py_int role_id of
           None \<Rightarrow> Inl ValueError
         | Some rid \<Rightarrow>
             (case get_role g rid of
                None \<Rightarrow> roles_to_add streak_count rest g member_roles acc
              | Some role \<Rightarrow>
                  if role \<notin> set member_roles
                  then roles_to_add streak_count rest g member_roles (acc @ [role])
                  else roles_to_add streak_count rest g member_roles acc))
      else roles_to_add streak_count rest g member_roles acc)"

definition reward_roles ::
  "manager \<Rightarrow> discord_guild \<Rightarrow> string \<Rightarrow> string \<Rightarrow> int \<Rightarrow> int list \<times> manager" where
  "reward_roles s g guild_id user_id streak_count =
     (case get_role_rewards s guild_id of
        (Inl e, s1) \<Rightarrow> ([], s1)
      | (Inr rewards, s1) \<Rightarrow>
          if rewards = [] then ([], s1)
          else
            (case py_int user_id of
               None \<Rightarrow> ([], s1)
             | Some uid \<Rightarrow>
                 (case get_member g uid of
                    None \<Rightarrow> ([], s1)
                  | Some member_roles \<Rightarrow>
                      (case roles_to_add streak_count rewards g member_roles [] of
                         Inl e \<Rightarrow> ([], s1)
                       | Inr rs \<Rightarrow> (rs, s1)))))"







section \<open>Observations and runs\<close>

text \<open>What a guild's record holds for a user, and all of a guild's users (none for a
  guild the store has no record of).\<close>

definition lookup_user :: "manager \<Rightarrow> string \<Rightarrow> string \<Rightarrow> user_data option" where
  "lookup_user s guild_id user_id =
     (case map_of (guilds s) guild_id of
        None \<Rightarrow> None
      | Some gd \<Rightarrow> map_of (users gd) user_id)"

definition users_of :: "manager \<Rightarrow> string \<Rightarrow> (string \<times> user_data) list" where
  "users_of s guild_id = (case map_of (guilds s) guild_id of None \<Rightarrow> [] | Some gd \<Rightarrow> users gd)"

definition fresh_user :: user_data where
  "fresh_user = \<lparr>streak = 0, last_date = None\<rparr>"

text \<open>One call of \<^verbatim>\<open>record_streak\<close> for each date of a list, in order, with the values
  returned.\<close>

fun record_each ::
  "manager \<Rightarrow> string \<Rightarrow> string \<Rightarrow> string list \<Rightarrow> (error + int) list \<times> manager" where
  "record_each s guild_id user_id [] = ([], s)"
| "record_each s guild_id user_id (t # ts) =
     (case record_streak s guild_id user_id t of
        (r, s1) \<Rightarrow> (case record_each s1 guild_id user_id ts of (rs, s2) \<Rightarrow> (r # rs, s2)))"

text \<open>Consecutive calendar days: each date is the day after the one before it.\<close>

fun consecutive :: "date list \<Rightarrow> bool" where
  "consecutive (a # b # ds) \<longleftrightarrow> toordinal b = toordinal a + 1 \<and> consecutive (b # ds)"
| "consecutive _ \<longleftrightarrow> True"

text \<open>
  The operations through which the bot reaches the store. The bot calls
  \<^verbatim>\<open>set_role_reward\<close> only from \<^verbatim>\<open>add_role\<close>; \<open>Restart\<close> is a new process that loads
  the file the last one wrote.
\<close>

datatype operation =
    SetStreakChannel string string
  | UnsetStreakChannel string
  | GetStreakChannel string
  | RecordStreak string string string
  | RemoveUserStreak string string
  | AddRole int int int
  | RemoveRoleReward string int
  | GetRoleRewards string
  | GetUserStreak string string
  | GetLeaderboard string
  | Restart

fun exec :: "manager \<Rightarrow> operation \<Rightarrow> manager" where
  "exec s (SetStreakChannel g c) = snd (set_streak_channel s g c)"
| "exec s (UnsetStreakChannel g) = snd (unset_streak_channel s g)"
| "exec s (GetStreakChannel g) = snd (get_streak_channel s g)"
| "exec s (RecordStreak g u t) = snd (record_streak s g u t)"
| "exec s (RemoveUserStreak g u) = snd (remove_user_streak s g u)"
| "exec s (AddRole g days role) = snd (add_role s g days role)"
| "exec s (RemoveRoleReward g days) = snd (remove_role_reward s g days)"
| "exec s (GetRoleRewards g) = snd (get_role_rewards s g)"
| "exec s (GetUserStreak g u) = snd (get_user_streak s g u)"
| "exec s (GetLeaderboard g) = snd (get_leaderboard s g)"
| "exec s Restart = load_data (disk s)"

definition run :: "operation list \<Rightarrow> manager" where
  "run ops = foldl exec (load_data None) ops"

text \<open>
  The invariant of the role rewards: every key of every guild's \<^verbatim>\<open>role_rewards\<close> is
  the decimal string, as \<^verbatim>\<open>str\<close> writes it, of an integer greater than 0; in memory
  and in the file.
\<close>

definition key_ok :: "string \<Rightarrow> bool" where
  "key_ok k \<longleftrightarrow> (case py_int k of None \<Rightarrow> False | Some d \<Rightarrow> 0 < d \<and> k = py_str d)"

definition guild_ok :: "guild_data \<Rightarrow> bool" where
  "guild_ok gd \<longleftrightarrow> (\<forall>(k, v) \<in> set (role_rewards gd). key_ok k)"

definition rewards_ok :: "(string \<times> guild_data) list \<Rightarrow> bool" where
  "rewards_ok gs \<longleftrightarrow> (\<forall>(g, gd) \<in> set gs. guild_ok gd)"

definition store_ok :: "manager \<Rightarrow> bool" where
  "store_ok s \<longleftrightarrow>
     rewards_ok (guilds s) \<and> (case disk s of None \<Rightarrow> True | Some d \<Rightarrow> rewards_ok d)"


section \<open>Facts about dates and decimal strings\<close>

lemma digit_val_digit_char: "n < 10 \<Longrightarrow> digit_val (digit_char n) = Some n"
proof -
  assume "n < 10"
  then have "n \<in> {0, 1, 2, 3, 4, 5, 6, 7, 8, 9}" by auto
  then show ?thesis by (auto simp: digit_val_def digit_char_def)
qed

lemma digit_val_mod10 [simp]: "digit_val (digit_char (n mod 10)) = Some (n mod 10)"
  by (rule digit_val_digit_char) simp

lemma digit_char_mod10_neq [simp]:
  "digit_char (n mod 10) \<noteq> CHR ''W''" "digit_char (n mod 10) \<noteq> CHR ''-''"
proof -
  have "digit_val CHR ''W'' = None" "digit_val CHR ''-'' = None"
    by (simp_all add: digit_val_def)
  then show "digit_char (n mod 10) \<noteq> CHR ''W''" "digit_char (n mod 10) \<noteq> CHR ''-''"
    by (metis digit_val_mod10 option.distinct(1))+
qed

lemma days_in_month_le: "days_in_month y m \<le> 31 \<or> 12 < m"
proof -
  have "m \<in> {0, 1, 2, 3, 4, 5, 6, 7, 8, 9, 10, 11, 12} \<or> 12 < m" by (simp; arith)
  then show ?thesis by (auto simp: days_in_month_def)
qed

lemma two_digits: "m < 100 \<Longrightarrow> 10 * (m div 10 mod 10) + m mod 10 = (m::nat)"
  by simp

lemma flat_digits:
  "10 * (10 * (10 * a + b) + c) + e = 1000 * a + 100 * b + 10 * c + (e::nat)"
  by simp

lemma four_digits:
  assumes "y < 10000"
  shows "1000 * (y div 1000 mod 10) + 100 * (y div 100 mod 10)
      + 10 * (y div 10 mod 10) + y mod 10 = (y::nat)"
proof -
  have h: "y div 100 = y div 10 div 10" "y div 1000 = y div 10 div 10 div 10"
    by (simp_all add: div_mult2_eq)
  have "y div 10 div 10 div 10 < 10"
    using assms by (simp add: div_mult2_eq less_mult_imp_div_less)
  then have "10 * (10 * (10 * (y div 1000 mod 10) + y div 100 mod 10)
      + y div 10 mod 10) + y mod 10 = y"
    unfolding h by simp
  then show ?thesis by (simp only: flat_digits)
qed

lemma date_eta: "\<lparr>year = year d, month = month d, day = day d\<rparr> = (d::date)"
  by (cases d) simp

lemma fromisoformat_isoformat:
  assumes "valid_date d"
  shows "fromisoformat (isoformat d) = Some d"
proof -
  from assms have y: "year d \<le> 9999" and m: "month d \<le> 12"
    and dd: "day d \<le> days_in_month (year d) (month d)"
    by (simp_all add: valid_date_def)
  from dd m days_in_month_le [of "year d" "month d"] have d31: "day d \<le> 31" by auto
  have ye: "1000 * (year d div 1000 mod 10) + 100 * (year d div 100 mod 10)
      + 10 * (year d div 10 mod 10) + year d mod 10 = year d"
    using y by (intro four_digits) simp
  have me: "10 * (month d div 10 mod 10) + month d mod 10 = month d"
    using m by (intro two_digits) simp
  have de: "10 * (day d div 10 mod 10) + day d mod 10 = day d"
    using d31 by (intro two_digits) simp
  show ?thesis
    using assms
    by (simp add: isoformat_def fromisoformat_def parse_digits_def ye me de new_date_def date_eta)
qed

lemma isoformat_inj:
  assumes "valid_date a" and "valid_date b" and "isoformat a = isoformat b"
  shows "a = b"
proof -
  have "Some a = fromisoformat (isoformat a)" using assms(1) by (simp add: fromisoformat_isoformat)
  also have "\<dots> = Some b" using assms(2,3) by (simp add: fromisoformat_isoformat)
  finally show ?thesis by simp
qed

lemma fromisoformat_Nil [simp]: "fromisoformat [] = None"
  by (simp add: fromisoformat_def)

text \<open>The parser on the forms it reads and on some it refuses, as Python 3.11 answers.\<close>

lemmas parse_defs =
  fromisoformat_def parse_digits_def digit_val_def new_date_def valid_date_def
  days_in_month_def is_leap_def iso_to_ymd_def weekday_def ymd_to_ord_def iso_week1_monday_def
  ord_to_ymd_def days_before_year_def days_before_month_def Let_def

lemma fromisoformat_examples:
  "fromisoformat ''2024-02-29'' = Some \<lparr>year = 2024, month = 2, day = 29\<rparr>"
  "fromisoformat ''20240229'' = Some \<lparr>year = 2024, month = 2, day = 29\<rparr>"
  "fromisoformat ''2024-W09-4'' = Some \<lparr>year = 2024, month = 2, day = 29\<rparr>"
  "fromisoformat ''2024W094'' = Some \<lparr>year = 2024, month = 2, day = 29\<rparr>"
  "fromisoformat ''2024W09'' = Some \<lparr>year = 2024, month = 2, day = 26\<rparr>"
  "fromisoformat ''2020-W53-7'' = Some \<lparr>year = 2021, month = 1, day = 3\<rparr>"
  "fromisoformat ''20240229 2'' = Some \<lparr>year = 2024, month = 2, day = 29\<rparr>"
  "fromisoformat ''2021-W53-1'' = None"
  "fromisoformat ''9999-W52-7'' = None"
  "fromisoformat ''0000-W01-1'' = None"
  "fromisoformat ''2024-W094'' = None"
  "fromisoformat ''2024-0229'' = None"
  "fromisoformat ''2024-02-30'' = None"
  "fromisoformat ''2024-2-29'' = None"
  by (simp_all add: parse_defs)

section \<open>Facts about the store\<close>

lemma map_of_ensure_guild:
  "map_of (guilds (ensure_guild s g)) g =
     Some (case map_of (guilds s) g of None \<Rightarrow> new_guild | Some gd \<Rightarrow> gd)"
  by (auto simp: ensure_guild_def update_conv')


lemma isoformat_nonempty [simp]: "isoformat d \<noteq> []"
  by (simp add: isoformat_def)

lemma next_user_data_fresh:
  "last_date ud = None \<Longrightarrow> next_user_data ud t = ud\<lparr>streak := 1, last_date := Some t\<rparr>"
  by (simp add: next_user_data_def truthy_def)

lemma next_user_data_same: "last_date ud = Some t \<Longrightarrow> next_user_data ud t = ud"
  by (simp add: next_user_data_def)

lemma next_user_data_idem: "next_user_data (next_user_data ud t) t = next_user_data ud t"
  by (simp add: next_user_data_def Let_def)

lemma day_diff_dates:
  "valid_date a \<Longrightarrow> valid_date b \<Longrightarrow>
   day_diff (isoformat a) (isoformat b) = Some (toordinal b - toordinal a)"
  by (simp add: day_diff_def fromisoformat_isoformat)

lemma next_user_data_dates:
  assumes "valid_date D" and "valid_date T" and "last_date ud = Some (isoformat D)"
  shows "next_user_data ud (isoformat T) =
     (if D = T then ud
      else ud\<lparr>streak := (if toordinal T - toordinal D = 1 then streak ud + 1 else 1),
              last_date := Some (isoformat T)\<rparr>)"
proof (cases "D = T")
  case True
  with assms(3) show ?thesis by (simp add: next_user_data_same)
next
  case False
  with assms(1,2) have "isoformat D \<noteq> isoformat T" by (auto dest: isoformat_inj)
  with False assms show ?thesis
    by (simp add: next_user_data_def truthy_def day_diff_dates)
qed

lemma next_user_data_unparseable:
  assumes "last_date ud = Some l" and "fromisoformat l = None" and "l \<noteq> t"
  shows "next_user_data ud t = ud\<lparr>streak := 1, last_date := Some t\<rparr>"
  using assms by (simp add: next_user_data_def day_diff_def)

text \<open>What \<^verbatim>\<open>record_streak\<close> returns and what it stores, in terms of the streak
  decision applied to the user's record (a fresh record for a user not yet there).\<close>

lemma record_streak_result:
  "fst (record_streak s g u t) =
     Inr (streak (next_user_data (case lookup_user s g u of None \<Rightarrow> fresh_user | Some d \<Rightarrow> d) t))"
  by (auto simp: record_streak_def Let_def map_of_ensure_guild lookup_user_def fresh_user_def
      new_guild_def update_conv' split: option.splits)

lemma record_streak_lookup:
  "lookup_user (snd (record_streak s g u t)) g u =
     Some (next_user_data (case lookup_user s g u of None \<Rightarrow> fresh_user | Some d \<Rightarrow> d) t)"
  by (auto simp: record_streak_def Let_def map_of_ensure_guild lookup_user_def fresh_user_def
      new_guild_def update_conv' save_data_def split: option.splits)

text \<open>A stored date in the compact form \<^verbatim>\<open>YYYYMMDD\<close> is a date that parses: activity
  on the day after it continues the streak.\<close>

lemma record_streak_compact_date:
  "fst (record_streak
     \<lparr>guilds = [(''1'', \<lparr>streak_channel_id = None,
         users = [(''7'', \<lparr>streak = 4, last_date = Some ''20240229''\<rparr>)],
         role_rewards = []\<rparr>)], disk = None\<rparr>
     ''1'' ''7'' ''2024-03-01'') = Inr 5"
  by (simp add: record_streak_result lookup_user_def next_user_data_def truthy_def day_diff_def
      toordinal_def parse_defs)

section \<open>The streak update\<close>

text \<open>
  Claim C1. A user's record holds streak \<open>n\<close> and a last date \<open>D\<close> (a calendar date as
  \<^verbatim>\<open>isoformat\<close> writes it, which is how the bot passes and stores dates, or none). Recording activity on the date \<open>T\<close> returns \<open>n\<close> when \<open>D = T\<close>,
  \<open>n + 1\<close> when \<open>D\<close> is the day before \<open>T\<close>, and 1 in every other case: no last date,
  a gap of more than one day, or \<open>T\<close> before \<open>D\<close>.
\<close>

theorem record_streak_case_analysis:
  assumes "lookup_user s g u = Some ud"
    and "last_date ud = map_option isoformat D"
    and "valid_date T"
    and "case D of None \<Rightarrow> True | Some d \<Rightarrow> valid_date d"
  shows "fst (record_streak s g u (isoformat T)) =
     Inr (case D of
            None \<Rightarrow> 1
          | Some d \<Rightarrow>
              if d = T then streak ud
              else if toordinal d = toordinal T - 1 then streak ud + 1
              else 1)"
proof (cases D)
  case None
  with assms show ?thesis
    by (simp add: record_streak_result next_user_data_fresh)
next
  case (Some d)
  with assms have "valid_date d" and "last_date ud = Some (isoformat d)" by simp_all
  with assms(1,3) Some show ?thesis
    by (auto simp add: record_streak_result next_user_data_dates)
qed

theorem record_streak_case_analysis_witness:
  "fst (record_streak
     \<lparr>guilds = [(''1'', \<lparr>streak_channel_id = None,
         users = [(''7'', \<lparr>streak = 4, last_date = Some ''2024-02-29''\<rparr>)],
         role_rewards = []\<rparr>)], disk = None\<rparr>
     ''1'' ''7'' ''2024-03-01'') = Inr 5"
  using record_streak_case_analysis
    [of "\<lparr>guilds = [(''1'', \<lparr>streak_channel_id = None,
         users = [(''7'', \<lparr>streak = 4, last_date = Some ''2024-02-29''\<rparr>)],
         role_rewards = []\<rparr>)], disk = None\<rparr>" "''1''" "''7''"
       "\<lparr>streak = 4, last_date = Some ''2024-02-29''\<rparr>"
       "Some \<lparr>year = 2024, month = 2, day = 29\<rparr>" "\<lparr>year = 2024, month = 3, day = 1\<rparr>"]
  by (simp add: lookup_user_def isoformat_def digit_char_def valid_date_def days_in_month_def
      is_leap_def toordinal_def days_before_year_def days_before_month_def)

text \<open>
  Claim C10. When the stored last date is a string that \<^verbatim>\<open>date.fromisoformat\<close> does
  not parse as a calendar date, recording activity on a date \<open>T\<close> raises nothing: it
  returns 1 and stores streak 1 with \<open>T\<close> as the last date.
\<close>

theorem record_streak_unparseable_last_date:
  assumes "lookup_user s g u = Some ud"
    and "last_date ud = Some l"
    and "fromisoformat l = None"
    and "valid_date T"
  shows "fst (record_streak s g u (isoformat T)) = Inr 1 \<and>
         lookup_user (snd (record_streak s g u (isoformat T))) g u =
           Some \<lparr>streak = 1, last_date = Some (isoformat T)\<rparr>"
proof -
  from assms(3,4) have "l \<noteq> isoformat T"
    by (auto simp: fromisoformat_isoformat)
  with assms(2,3)
  have "next_user_data ud (isoformat T) = ud\<lparr>streak := 1, last_date := Some (isoformat T)\<rparr>"
    by (rule next_user_data_unparseable)
  with assms(1) show ?thesis
    by (simp add: record_streak_result record_streak_lookup)
qed

theorem record_streak_unparseable_last_date_witness:
  "fromisoformat ''2024-02-30'' = None \<and>
   fst (record_streak
     \<lparr>guilds = [(''1'', \<lparr>streak_channel_id = None,
         users = [(''7'', \<lparr>streak = 4, last_date = Some ''2024-02-30''\<rparr>)],
         role_rewards = []\<rparr>)], disk = None\<rparr>
     ''1'' ''7'' ''2024-03-01'') = Inr 1"
  using record_streak_unparseable_last_date
    [of "\<lparr>guilds = [(''1'', \<lparr>streak_channel_id = None,
         users = [(''7'', \<lparr>streak = 4, last_date = Some ''2024-02-30''\<rparr>)],
         role_rewards = []\<rparr>)], disk = None\<rparr>" "''1''" "''7''"
       "\<lparr>streak = 4, last_date = Some ''2024-02-30''\<rparr>"
       "''2024-02-30''" "\<lparr>year = 2024, month = 3, day = 1\<rparr>"]
  by (simp add: lookup_user_def isoformat_def digit_char_def digit_val_def valid_date_def
      days_in_month_def is_leap_def new_date_def fromisoformat_def parse_digits_def)

text \<open>
  Claim C2. Recording activity a second time with the same date changes nothing: the
  second call returns what the first returned and leaves the whole store, in memory and
  in the file, as the first call left it. When the date already is the user's last date,
  the call returns the stored streak and the user's record stays as it is.
\<close>

theorem record_streak_idempotent:
  "record_streak (snd (record_streak s g u t)) g u t = record_streak s g u t \<and>
   (lookup_user s g u = Some ud \<and> last_date ud = Some t \<longrightarrow>
      fst (record_streak s g u t) = Inr (streak ud) \<and>
      lookup_user (snd (record_streak s g u t)) g u = Some ud)"
proof -
  have "record_streak (snd (record_streak s g u t)) g u t = record_streak s g u t"
    by (auto simp: record_streak_def Let_def map_of_ensure_guild ensure_guild_def
        new_guild_def update_conv' save_data_def next_user_data_idem update_triv
        split: option.splits)
  then show ?thesis
    by (simp add: record_streak_result record_streak_lookup next_user_data_same)
qed

theorem record_streak_idempotent_witness:
  "record_streak (snd (record_streak (load_data None) ''1'' ''7'' ''2024-03-01''))
      ''1'' ''7'' ''2024-03-01''
     = record_streak (load_data None) ''1'' ''7'' ''2024-03-01'' \<and>
   fst (record_streak
     \<lparr>guilds = [(''1'', \<lparr>streak_channel_id = None,
         users = [(''7'', \<lparr>streak = 4, last_date = Some ''2024-03-01''\<rparr>)],
         role_rewards = []\<rparr>)], disk = None\<rparr>
     ''1'' ''7'' ''2024-03-01'') = Inr 4"
  using record_streak_idempotent [of "load_data None" "''1''" "''7''" "''2024-03-01''"]
    record_streak_idempotent
      [of "\<lparr>guilds = [(''1'', \<lparr>streak_channel_id = None,
         users = [(''7'', \<lparr>streak = 4, last_date = Some ''2024-03-01''\<rparr>)],
         role_rewards = []\<rparr>)], disk = None\<rparr>" "''1''" "''7''" "''2024-03-01''"
         "\<lparr>streak = 4, last_date = Some ''2024-03-01''\<rparr>"]
  by (simp add: lookup_user_def)

section \<open>Consecutive days\<close>

lemma record_each_from:
  assumes "lookup_user s g u = Some ud" and "last_date ud = Some (isoformat d0)"
    and "valid_date d0" and "list_all valid_date ds" and "consecutive (d0 # ds)"
  shows "fst (record_each s g u (map isoformat ds)) =
           map Inr [streak ud + 1 .. streak ud + int (length ds)] \<and>
         lookup_user (snd (record_each s g u (map isoformat ds))) g u =
           Some (ud\<lparr>streak := streak ud + int (length ds),
                    last_date := Some (isoformat (last (d0 # ds)))\<rparr>)"
  using assms
proof (induction ds arbitrary: s ud d0)
  case Nil
  then show ?case by simp
next
  case (Cons d ds)
  let ?r = "record_streak s g u (isoformat d)"
  let ?ud' = "ud\<lparr>streak := streak ud + 1, last_date := Some (isoformat d)\<rparr>"
  from Cons.prems have vd: "valid_date d" and ord: "toordinal d = toordinal d0 + 1"
    and rest: "list_all valid_date ds" "consecutive (d # ds)"
    by simp_all
  from ord have "d0 \<noteq> d" by auto
  with Cons.prems(2,3) vd ord
  have nxt: "next_user_data ud (isoformat d) = ?ud'"
    by (simp add: next_user_data_dates)
  from Cons.prems(1) nxt have res: "fst ?r = Inr (streak ud + 1)"
    and look: "lookup_user (snd ?r) g u = Some ?ud'"
    by (simp_all add: record_streak_result record_streak_lookup)
  from Cons.IH [OF look _ vd rest]
  have ih: "fst (record_each (snd ?r) g u (map isoformat ds)) =
              map Inr [streak ud + 1 + 1 .. streak ud + 1 + int (length ds)]"
    "lookup_user (snd (record_each (snd ?r) g u (map isoformat ds))) g u =
       Some (?ud'\<lparr>streak := streak ud + 1 + int (length ds),
                   last_date := Some (isoformat (last (d # ds)))\<rparr>)"
    by simp_all
  have up: "[streak ud + 1 .. streak ud + int (length (d # ds))] =
      (streak ud + 1) # [streak ud + 1 + 1 .. streak ud + 1 + int (length ds)]"
    by (subst upto_rec1) (simp_all add: add.commute add.left_commute)
  show ?case
    using res ih up by (simp add: case_prod_unfold add.commute add.left_commute)
qed

text \<open>
  Claim C3. From a user with no record, or with streak 0 and no last date, one call of
  \<^verbatim>\<open>record_streak\<close> on each of \<open>N \<ge> 1\<close> consecutive calendar days returns 1, 2, ...,
  \<open>N\<close>: the \<open>N\<close>-th call returns \<open>N\<close>, and the streak stored after it is \<open>N\<close>.
\<close>

theorem record_streak_consecutive_days:
  assumes "lookup_user s g u = None \<or> lookup_user s g u = Some fresh_user"
    and "ds \<noteq> []" and "list_all valid_date ds" and "consecutive ds"
  shows "fst (record_each s g u (map isoformat ds)) = map Inr [1 .. int (length ds)] \<and>
         last (fst (record_each s g u (map isoformat ds))) = Inr (int (length ds)) \<and>
         map_option streak (lookup_user (snd (record_each s g u (map isoformat ds))) g u) =
           Some (int (length ds))"
proof -
  from assms(2) obtain d ds' where ds: "ds = d # ds'" by (cases ds) auto
  let ?r = "record_streak s g u (isoformat d)"
  let ?ud = "\<lparr>streak = 1, last_date = Some (isoformat d)\<rparr>"
  from assms(1)
  have "next_user_data (case lookup_user s g u of None \<Rightarrow> fresh_user | Some x \<Rightarrow> x)
      (isoformat d) = ?ud"
    by (auto simp: next_user_data_fresh fresh_user_def)
  then have res: "fst ?r = Inr 1" and look: "lookup_user (snd ?r) g u = Some ?ud"
    by (simp_all add: record_streak_result record_streak_lookup)
  from assms(3,4) ds have "valid_date d" "list_all valid_date ds'" "consecutive (d # ds')"
    by simp_all
  from record_each_from [OF look _ this]
  have tl: "fst (record_each (snd ?r) g u (map isoformat ds')) =
      map Inr [1 + 1 .. 1 + int (length ds')]"
    and st: "lookup_user (snd (record_each (snd ?r) g u (map isoformat ds'))) g u =
       Some (?ud\<lparr>streak := 1 + int (length ds'),
                  last_date := Some (isoformat (last (d # ds')))\<rparr>)"
    by simp_all
  have up: "[1 .. int (length ds)] = 1 # [1 + 1 .. 1 + int (length ds')]"
    unfolding ds by (subst upto_rec1) (simp_all add: add.commute)
  have all: "fst (record_each s g u (map isoformat ds)) = map Inr [1 .. int (length ds)]"
    using res tl up ds by (simp add: case_prod_unfold)
  have "1 \<le> int (length ds)" using assms(2) by (cases ds) simp_all
  then have "[1 .. int (length ds)] = [1 .. int (length ds) - 1] @ [int (length ds)]"
    by (rule upto_rec2)
  then have "last (map Inr [1 .. int (length ds)]) = (Inr (int (length ds)) :: error + int)"
    by simp
  with all st ds show ?thesis
    by (simp add: case_prod_unfold)
qed

theorem record_streak_consecutive_days_witness:
  "fst (record_each (load_data None) ''1'' ''7'' [''2024-02-28'', ''2024-02-29'', ''2024-03-01''])
     = [Inr 1, Inr 2, Inr 3]"
  using record_streak_consecutive_days
    [of "load_data None" "''1''" "''7''"
       "[\<lparr>year = 2024, month = 2, day = 28\<rparr>, \<lparr>year = 2024, month = 2, day = 29\<rparr>,
         \<lparr>year = 2024, month = 3, day = 1\<rparr>]"]
  by (simp add: lookup_user_def load_data_def isoformat_def digit_char_def valid_date_def
      days_in_month_def is_leap_def toordinal_def days_before_year_def days_before_month_def
      upto.simps)

section \<open>Reads and resets\<close>

lemma update_absent: "map_of al k = None \<Longrightarrow> AList.update k v al = al @ [(k, v)]"
  by (induction al) (auto split: if_splits)

lemma get_user_streak_result:
  "fst (get_user_streak s g u) =
     Inr (case lookup_user s g u of None \<Rightarrow> 0 | Some ud \<Rightarrow> streak ud)"
  by (auto simp: get_user_streak_def Let_def map_of_ensure_guild lookup_user_def new_guild_def
      split: option.splits)

lemma read_state:
  "snd (get_streak_channel s g) = ensure_guild s g"
  "snd (get_role_rewards s g) = ensure_guild s g"
  "snd (get_user_streak s g u) = ensure_guild s g"
  "snd (get_leaderboard s g) = ensure_guild s g"
  by (simp_all add: get_streak_channel_def get_role_rewards_def get_user_streak_def
      get_leaderboard_def Let_def map_of_ensure_guild)

lemma lookup_user_ensure_guild [simp]:
  "lookup_user (ensure_guild s g') g u = lookup_user s g u"
  by (auto simp: lookup_user_def ensure_guild_def update_conv' new_guild_def)

lemma users_of_ensure_guild [simp]: "users_of (ensure_guild s g') g = users_of s g"
  by (auto simp: users_of_def ensure_guild_def update_conv' new_guild_def)

lemma remove_user_streak_lookup:
  "lookup_user (snd (remove_user_streak s g u)) g u =
     map_option (\<lambda>ud. ud\<lparr>streak := 0, last_date := None\<rparr>) (lookup_user s g u)"
  by (auto simp: remove_user_streak_def Let_def map_of_ensure_guild lookup_user_def
      new_guild_def update_conv' save_data_def split: option.splits)

lemma remove_user_streak_absent:
  "lookup_user s g u = None \<Longrightarrow>
     fst (remove_user_streak s g u) = Inr () \<and>
     users_of (snd (remove_user_streak s g u)) g = users_of s g"
  by (auto simp: remove_user_streak_def Let_def map_of_ensure_guild lookup_user_def users_of_def
      new_guild_def update_conv' save_data_def split: option.splits)

text \<open>
  Claim C4. For a user who has a record, \<^verbatim>\<open>remove_user_streak\<close> sets the streak to 0
  and the last date to none together; \<^verbatim>\<open>get_user_streak\<close> then returns 0, and the next
  \<^verbatim>\<open>record_streak\<close>, on any date, returns 1. For a user who has no record it raises
  nothing and leaves the guild's users as they were.
\<close>

theorem remove_user_streak_resets:
  "(lookup_user s g u = Some ud \<longrightarrow>
      lookup_user (snd (remove_user_streak s g u)) g u = Some \<lparr>streak = 0, last_date = None\<rparr> \<and>
      fst (get_user_streak (snd (remove_user_streak s g u)) g u) = Inr 0 \<and>
      fst (record_streak (snd (remove_user_streak s g u)) g u t) = Inr 1 \<and>
      fst (record_streak (snd (get_user_streak (snd (remove_user_streak s g u)) g u)) g u t)
        = Inr 1) \<and>
   (lookup_user s g u = None \<longrightarrow>
      fst (remove_user_streak s g u) = Inr () \<and>
      users_of (snd (remove_user_streak s g u)) g = users_of s g)"
proof (intro conjI impI)
  assume a: "lookup_user s g u = Some ud"
  let ?s1 = "snd (remove_user_streak s g u)"
  from a show l: "lookup_user ?s1 g u = Some \<lparr>streak = 0, last_date = None\<rparr>"
    by (simp add: remove_user_streak_lookup)
  then show "fst (get_user_streak ?s1 g u) = Inr 0"
    by (simp add: get_user_streak_result)
  from l show "fst (record_streak ?s1 g u t) = Inr 1"
    by (simp add: record_streak_result next_user_data_fresh)
  from l show "fst (record_streak (snd (get_user_streak ?s1 g u)) g u t) = Inr 1"
    by (simp add: record_streak_result next_user_data_fresh read_state)
next
  assume "lookup_user s g u = None"
  then show "fst (remove_user_streak s g u) = Inr ()"
    and "users_of (snd (remove_user_streak s g u)) g = users_of s g"
    by (simp_all add: remove_user_streak_absent)
qed

theorem remove_user_streak_resets_witness:
  "fst (record_streak (snd (remove_user_streak
     \<lparr>guilds = [(''1'', \<lparr>streak_channel_id = None,
         users = [(''7'', \<lparr>streak = 4, last_date = Some ''2024-02-29''\<rparr>)],
         role_rewards = []\<rparr>)], disk = None\<rparr> ''1'' ''7'')) ''1'' ''7'' ''2024-03-01'') = Inr 1 \<and>
   users_of (snd (remove_user_streak
     \<lparr>guilds = [(''1'', \<lparr>streak_channel_id = None,
         users = [(''7'', \<lparr>streak = 4, last_date = Some ''2024-02-29''\<rparr>)],
         role_rewards = []\<rparr>)], disk = None\<rparr> ''1'' ''8'')) ''1'' =
     [(''7'', \<lparr>streak = 4, last_date = Some ''2024-02-29''\<rparr>)]"
  using remove_user_streak_resets
      [of "\<lparr>guilds = [(''1'', \<lparr>streak_channel_id = None,
         users = [(''7'', \<lparr>streak = 4, last_date = Some ''2024-02-29''\<rparr>)],
         role_rewards = []\<rparr>)], disk = None\<rparr>" "''1''" "''7''"
         "\<lparr>streak = 4, last_date = Some ''2024-02-29''\<rparr>" "''2024-03-01''"]
    remove_user_streak_resets
      [of "\<lparr>guilds = [(''1'', \<lparr>streak_channel_id = None,
         users = [(''7'', \<lparr>streak = 4, last_date = Some ''2024-02-29''\<rparr>)],
         role_rewards = []\<rparr>)], disk = None\<rparr>" "''1''" "''8''"]
  by (simp add: lookup_user_def users_of_def)

text \<open>
  Claim C9, as stated: the four reads leave the whole store unchanged, also for a guild
  never seen before. On the empty store \<^verbatim>\<open>get_streak_channel\<close> of a new guild does
  change the document in memory: \<^verbatim>\<open>ensure_guild\<close> adds the guild's record.
\<close>

theorem read_adds_guild_counterexample:
  "snd (get_streak_channel (load_data None) ''1'') \<noteq> load_data None"
  by (simp add: get_streak_channel_def ensure_guild_def load_data_def Let_def)

text \<open>
  Claim C9, amended. \<^verbatim>\<open>get_streak_channel\<close>, \<^verbatim>\<open>get_role_rewards\<close>,
  \<^verbatim>\<open>get_user_streak\<close> and \<^verbatim>\<open>get_leaderboard\<close> do to the store what \<^verbatim>\<open>ensure_guild\<close>
  does and nothing more: the file is not written, the document in memory is unchanged
  for a guild that has a record, and for a guild that has none an empty record of it is
  added at the end.
\<close>

theorem reads_only_ensure_guild:
  "snd (get_streak_channel s g) = ensure_guild s g \<and>
   snd (get_role_rewards s g) = ensure_guild s g \<and>
   snd (get_user_streak s g u) = ensure_guild s g \<and>
   snd (get_leaderboard s g) = ensure_guild s g \<and>
   disk (ensure_guild s g) = disk s \<and>
   guilds (ensure_guild s g) =
     (if map_of (guilds s) g = None then guilds s @ [(g, new_guild)] else guilds s)"
  by (simp add: read_state) (simp add: ensure_guild_def update_absent)

section \<open>The leaderboard\<close>

lemma get_leaderboard_result:
  "fst (get_leaderboard s g) =
     Inr (sort_key (\<lambda>x. - snd x)
       (map (\<lambda>(user_id, ud). (user_id, streak ud))
         (filter (\<lambda>(user_id, ud). streak ud > 0) (users_of s g))))"
  by (auto simp: get_leaderboard_def Let_def map_of_ensure_guild users_of_def new_guild_def
      split: option.splits)

text \<open>
  Claim C6. \<^verbatim>\<open>get_leaderboard\<close> returns exactly the pairs of user and streak of the
  guild's users whose streak is greater than 0, each as often as it occurs, in descending
  order of streak; no user with streak 0 appears. For A with 5, B with 0 and C with 3
  the result is \<open>[(A, 5), (C, 3)]\<close>.
\<close>

theorem get_leaderboard_positive_descending:
  "\<exists>lb. fst (get_leaderboard s g) = Inr lb \<and>
     mset lb = mset (map (\<lambda>(user_id, ud). (user_id, streak ud))
                      (filter (\<lambda>(user_id, ud). 0 < streak ud) (users_of s g))) \<and>
     sorted_wrt (\<lambda>a b. snd b \<le> snd a) lb \<and>
     (\<forall>(user_id, n) \<in> set lb. 0 < n)"
proof -
  let ?xs = "map (\<lambda>(user_id, ud). (user_id, streak ud))
               (filter (\<lambda>(user_id, ud). 0 < streak ud) (users_of s g))"
  let ?lb = "sort_key (\<lambda>x. - snd x) ?xs"
  have "sorted (map (\<lambda>x. - snd x) ?lb)" by (rule sorted_sort_key)
  then have "sorted_wrt (\<lambda>a b. snd b \<le> snd a) ?lb" by (simp add: sorted_map)
  moreover have "\<forall>(user_id, n) \<in> set ?lb. 0 < n" by auto
  ultimately show ?thesis by (simp add: get_leaderboard_result)
qed

theorem get_leaderboard_positive_descending_witness:
  "fst (get_leaderboard
     \<lparr>guilds = [(''1'', \<lparr>streak_channel_id = None,
         users = [(''A'', \<lparr>streak = 5, last_date = Some ''2024-02-29''\<rparr>),
                  (''B'', \<lparr>streak = 0, last_date = None\<rparr>),
                  (''C'', \<lparr>streak = 3, last_date = Some ''2024-02-29''\<rparr>)],
         role_rewards = []\<rparr>)], disk = None\<rparr> ''1'') = Inr [(''A'', 5), (''C'', 3)]"
  using get_leaderboard_positive_descending
     [of "\<lparr>guilds = [(''1'', \<lparr>streak_channel_id = None,
         users = [(''A'', \<lparr>streak = 5, last_date = Some ''2024-02-29''\<rparr>),
                  (''B'', \<lparr>streak = 0, last_date = None\<rparr>),
                  (''C'', \<lparr>streak = 3, last_date = Some ''2024-02-29''\<rparr>)],
         role_rewards = []\<rparr>)], disk = None\<rparr>" "''1''"]
  by (simp add: get_leaderboard_def ensure_guild_def Let_def)

section \<open>Role reward keys\<close>

lemma digits_acc_append:
  "digits_acc n (xs @ [c]) =
     (case digits_acc n xs of
        None \<Rightarrow> None
      | Some m \<Rightarrow> (case digit_val c of None \<Rightarrow> None | Some k \<Rightarrow> Some (10 * m + k)))"
  by (induction xs arbitrary: n) (auto split: option.splits)

lemma digits_acc_nat_digits: "digits_acc 0 (nat_digits n) = Some n"
proof (induction n rule: nat_digits.induct)
  case (1 n)
  show ?case
  proof (cases "n < 10")
    case True
    then show ?thesis by (subst nat_digits.simps) (simp add: digit_val_digit_char)
  next
    case False
    with 1 have "digits_acc 0 (nat_digits (n div 10)) = Some (n div 10)" by simp
    with False show ?thesis
      by (subst nat_digits.simps) (simp add: digits_acc_append)
  qed
qed

lemma nat_digits_all: "list_all (\<lambda>c. digit_val c \<noteq> None) (nat_digits n)"
proof (induction n rule: nat_digits.induct)
  case (1 n)
  show ?case
  proof (cases "n < 10")
    case True
    then show ?thesis by (subst nat_digits.simps) (simp add: digit_val_digit_char)
  next
    case False
    with 1 show ?thesis by (subst nat_digits.simps) simp
  qed
qed

lemma nat_digits_nonempty: "nat_digits n \<noteq> []"
  by (subst nat_digits.simps) simp

lemma isdigit_nat_digits: "isdigit (nat_digits n)"
  using nat_digits_all [of n] by (simp add: isdigit_def nat_digits_nonempty)

lemma digit_val_signs [simp]: "digit_val CHR ''-'' = None" "digit_val CHR ''+'' = None"
  by (simp_all add: digit_val_def)

lemma digits_acc_all:
  "list_all (\<lambda>c. digit_val c \<noteq> None) cs \<Longrightarrow> \<exists>m. digits_acc n cs = Some m"
  by (induction cs arbitrary: n) auto

lemma py_int_isdigit:
  assumes "isdigit k"
  shows "\<exists>m. py_int k = Some (int m)"
proof -
  from assms obtain c cs where k: "k = c # cs" by (cases k) (auto simp: isdigit_def)
  with assms have "digit_val c \<noteq> None" by (simp add: isdigit_def)
  then have "c \<noteq> CHR ''-''" "c \<noteq> CHR ''+''" by auto
  moreover from assms obtain m where "digits_acc 0 k = Some m"
    using digits_acc_all [of k 0] by (auto simp: isdigit_def)
  ultimately show ?thesis using k by (auto simp: py_int_def digits_val_def)
qed

lemma py_int_nat_digits: "py_int (nat_digits n) = Some (int n)"
proof -
  obtain c cs where k: "nat_digits n = c # cs" using nat_digits_nonempty [of n]
    by (cases "nat_digits n") auto
  with nat_digits_all [of n] have "digit_val c \<noteq> None" by simp
  then have "c \<noteq> CHR ''-''" "c \<noteq> CHR ''+''" by auto
  then show ?thesis using k digits_acc_nat_digits [of n]
    by (simp add: py_int_def digits_val_def)
qed

lemma py_int_py_str: "py_int (py_str d) = Some d"
proof (cases "d < 0")
  case True
  then show ?thesis
    by (simp add: py_str_def py_int_def digits_val_def nat_digits_nonempty digits_acc_nat_digits)
next
  case False
  then show ?thesis by (simp add: py_str_def py_int_nat_digits)
qed

lemma isdigit_py_str: "0 \<le> d \<Longrightarrow> isdigit (py_str d)"
  by (simp add: py_str_def isdigit_nat_digits)

text \<open>\<^verbatim>\<open>get_role_rewards\<close> never raises: a key that passes \<^verbatim>\<open>isdigit\<close> converts. The keys
  of its result are the values of those keys, and they are distinct.\<close>

lemma int_keys_result:
  "\<exists>rs. int_keys kvs acc = Inr rs \<and>
     fst ` set rs = fst ` set acc \<union> {d. \<exists>k \<in> fst ` set kvs. isdigit k \<and> py_int k = Some d} \<and>
     (distinct (map fst acc) \<longrightarrow> distinct (map fst rs))"
proof (induction kvs arbitrary: acc)
  case Nil
  then show ?case by simp
next
  case (Cons kv kvs)
  obtain k v where kv: "kv = (k, v)" by (cases kv)
  show ?case
  proof (cases "isdigit k")
    case False
    with Cons [of acc] kv show ?thesis by auto
  next
    case True
    then obtain m where m: "py_int k = Some (int m)" using py_int_isdigit by blast
    from Cons [of "AList.update (int m) v acc"] obtain rs where
      rs: "int_keys kvs (AList.update (int m) v acc) = Inr rs"
        "fst ` set rs = fst ` set (AList.update (int m) v acc) \<union>
           {d. \<exists>k \<in> fst ` set kvs. isdigit k \<and> py_int k = Some d}"
        "distinct (map fst (AList.update (int m) v acc)) \<longrightarrow> distinct (map fst rs)"
      by blast
    from rs(1) True m kv have "int_keys (kv # kvs) acc = Inr rs" by simp
    moreover from rs(2) True m kv
    have "fst ` set rs = fst ` set acc \<union>
        {d. \<exists>k \<in> fst ` set (kv # kvs). isdigit k \<and> py_int k = Some d}"
      by (auto simp: dom_update)
    moreover from rs(3) have "distinct (map fst acc) \<longrightarrow> distinct (map fst rs)"
      by (simp add: distinct_update)
    ultimately show ?thesis by blast
  qed
qed


lemma set_update_subset: "set (AList.update k v al) \<subseteq> insert (k, v) (set al)"
  by (induction al) auto

lemma rewards_ok_update:
  assumes "rewards_ok gs" and "guild_ok gd"
  shows "rewards_ok (AList.update g gd gs)"
  using assms set_update_subset [of g gd gs] by (auto simp: rewards_ok_def)

lemma rewards_ok_lookup:
  assumes "rewards_ok gs" and "map_of gs g = Some gd"
  shows "guild_ok gd"
  using assms by (auto simp: rewards_ok_def dest: map_of_SomeD)

lemma guild_ok_same_rewards:
  "guild_ok gd \<Longrightarrow> role_rewards gd' = role_rewards gd \<Longrightarrow> guild_ok gd'"
  by (simp add: guild_ok_def)

lemma guild_ok_new_guild: "guild_ok new_guild"
  by (simp add: guild_ok_def new_guild_def)

lemma store_ok_ensure_guild: "store_ok s \<Longrightarrow> store_ok (ensure_guild s g)"
  by (simp add: store_ok_def ensure_guild_def rewards_ok_update guild_ok_new_guild)

lemma store_ok_modify:
  assumes "store_ok s" and "guild_ok gd'"
  shows "store_ok (save_data (s\<lparr>guilds := AList.update g gd' (guilds s)\<rparr>))"
  using assms by (simp add: store_ok_def save_data_def rewards_ok_update)

lemma store_ok_guild:
  assumes "store_ok s"
  shows "guild_ok (case map_of (guilds s) g of None \<Rightarrow> new_guild | Some gd \<Rightarrow> gd)"
  using assms by (auto simp: store_ok_def guild_ok_new_guild split: option.splits
      intro: rewards_ok_lookup)

lemma guild_ok_set_reward:
  assumes "guild_ok gd" and "0 < days"
  shows "guild_ok (gd\<lparr>role_rewards := AList.update (py_str days) r (role_rewards gd)\<rparr>)"
  using assms set_update_subset [of "py_str days" r "role_rewards gd"]
  by (auto simp: guild_ok_def key_ok_def py_int_py_str)

lemma guild_ok_delete_reward:
  assumes "guild_ok gd"
  shows "guild_ok (gd\<lparr>role_rewards := AList.delete k (role_rewards gd)\<rparr>)"
  using assms by (auto simp: guild_ok_def AList.delete_eq)

lemma store_ok_exec:
  assumes "store_ok s"
  shows "store_ok (exec s op)"
proof -
  have eg: "\<And>g. store_ok (ensure_guild s g)" using assms by (rule store_ok_ensure_guild)
  have gd: "\<And>g. guild_ok (case map_of (guilds s) g of None \<Rightarrow> new_guild | Some gd \<Rightarrow> gd)"
    using assms by (rule store_ok_guild)
  show ?thesis
  proof (cases op)
    case (SetStreakChannel g c)
    then show ?thesis
      using eg [of g] gd [of g]
      by (auto simp: set_streak_channel_def Let_def map_of_ensure_guild
          intro!: store_ok_modify elim: guild_ok_same_rewards)
  next
    case (UnsetStreakChannel g)
    then show ?thesis
      using eg [of g] gd [of g]
      by (auto simp: unset_streak_channel_def Let_def map_of_ensure_guild
          intro!: store_ok_modify elim: guild_ok_same_rewards)
  next
    case (GetStreakChannel g)
    then show ?thesis using eg [of g] by (simp add: read_state)
  next
    case (RecordStreak g u t)
    then show ?thesis
      using eg [of g] gd [of g]
      by (auto simp: record_streak_def Let_def map_of_ensure_guild
          intro!: store_ok_modify elim: guild_ok_same_rewards)
  next
    case (RemoveUserStreak g u)
    then show ?thesis
      using eg [of g] gd [of g]
      by (auto simp: remove_user_streak_def Let_def map_of_ensure_guild
          intro!: store_ok_modify elim: guild_ok_same_rewards)
  next
    case (AddRole g days role)
    then show ?thesis
      using assms eg [of "py_str g"] gd [of "py_str g"]
      by (auto simp: add_role_def set_role_reward_def Let_def map_of_ensure_guild
          intro!: store_ok_modify guild_ok_set_reward)
  next
    case (RemoveRoleReward g days)
    then show ?thesis
      using eg [of g] gd [of g]
      by (auto simp: remove_role_reward_def Let_def map_of_ensure_guild
          intro!: store_ok_modify guild_ok_delete_reward)
  next
    case (GetRoleRewards g)
    then show ?thesis using eg [of g] by (simp add: read_state)
  next
    case (GetUserStreak g u)
    then show ?thesis using eg [of g] by (simp add: read_state)
  next
    case (GetLeaderboard g)
    then show ?thesis using eg [of g] by (simp add: read_state)
  next
    case Restart
    then show ?thesis using assms
      by (auto simp: store_ok_def load_data_def rewards_ok_def split: option.splits)
  qed
qed

lemma store_ok_run: "store_ok (run ops)"
proof (induction ops rule: rev_induct)
  case Nil
  show ?case by (simp add: run_def store_ok_def load_data_def rewards_ok_def)
next
  case (snoc op ops)
  then show ?case by (simp add: run_def store_ok_exec)
qed

text \<open>
  Claim C5, as stated: every operation of the store keeps all threshold keys strictly
  positive. \<^verbatim>\<open>set_role_reward\<close> itself checks nothing: called with 0 days on the empty
  store it stores the key \<^verbatim>\<open>"0"\<close>, and \<^verbatim>\<open>get_role_rewards\<close> then returns the key 0.
\<close>

theorem role_reward_zero_counterexample:
  "fst (get_role_rewards (snd (set_role_reward (load_data None) ''1'' 0 ''9'')) ''1'')
     = Inr [(0, ''9'')]"
  by (simp add: get_role_rewards_def set_role_reward_def ensure_guild_def load_data_def
      save_data_def new_guild_def Let_def py_str_def nat_digits.simps digit_char_def
      isdigit_def digit_val_def py_int_def digits_val_def)

text \<open>
  Claim C5, amended. The check is in the command \<^verbatim>\<open>!addrole\<close>, the only caller of
  \<^verbatim>\<open>set_role_reward\<close>: it refuses \<^verbatim>\<open>days <= 0\<close>. In every state the bot reaches from
  the empty store by its operations, restarts included, \<^verbatim>\<open>get_role_rewards\<close> of any
  guild returns strictly positive keys only, and each key once, with one role.
\<close>

theorem role_reward_keys_positive:
  "\<exists>rs. fst (get_role_rewards (run ops) g) = Inr rs \<and>
     (\<forall>(days, role_id) \<in> set rs. 0 < days) \<and>
     distinct (map fst rs)"
proof -
  let ?gd = "case map_of (guilds (run ops)) g of None \<Rightarrow> new_guild | Some gd \<Rightarrow> gd"
  have ok: "guild_ok ?gd"
    using store_ok_run by (rule store_ok_guild)
  from int_keys_result [of "role_rewards ?gd" "[]"] obtain rs where
    rs: "int_keys (role_rewards ?gd) [] = Inr rs"
      "fst ` set rs = {d. \<exists>k \<in> fst ` set (role_rewards ?gd). isdigit k \<and> py_int k = Some d}"
      "distinct (map fst rs)"
    by auto
  have "0 < d" if "d \<in> fst ` set rs" for d
    using that ok unfolding rs(2) guild_ok_def key_ok_def by (auto split: option.splits)
  then have "\<forall>(days, role_id) \<in> set rs. 0 < days" by force
  moreover have "fst (get_role_rewards (run ops) g) = Inr rs"
    using rs(1) by (simp add: get_role_rewards_def Let_def map_of_ensure_guild)
  ultimately show ?thesis using rs(3) by blast
qed


theorem role_reward_keys_positive_witness:
  "fst (get_role_rewards
     (run [AddRole 1 5 10, AddRole 1 0 11, AddRole 1 10 12, RemoveRoleReward ''1'' 5, Restart])
     ''1'') = Inr [(10, ''12'')] \<and> (0::int) < 10"
  using role_reward_keys_positive
    [of "[AddRole 1 5 10, AddRole 1 0 11, AddRole 1 10 12, RemoveRoleReward ''1'' 5, Restart]"
        "''1''"]
  by (simp add: run_def add_role_def set_role_reward_def remove_role_reward_def
      get_role_rewards_def ensure_guild_def load_data_def save_data_def new_guild_def Let_def
      py_str_def nat_digits.simps digit_char_def isdigit_def digit_val_def py_int_def
      digits_val_def)

section \<open>Granting reward roles\<close>

lemma granted_Cons:
  "{rid. \<exists>d r. (d, r) \<in> set ((d0, r0) # rewards) \<and> d \<le> n \<and> py_int r = Some rid \<and>
                rid \<in> A \<and> rid \<notin> B} =
   {rid. d0 \<le> n \<and> py_int r0 = Some rid \<and> rid \<in> A \<and> rid \<notin> B} \<union>
   {rid. \<exists>d r. (d, r) \<in> set rewards \<and> d \<le> n \<and> py_int r = Some rid \<and>
                rid \<in> A \<and> rid \<notin> B}"
  by auto

lemma roles_to_add_set:
  assumes "\<forall>(d, r) \<in> set rewards. d \<le> n \<longrightarrow> py_int r \<noteq> None"
  shows "\<exists>rs. roles_to_add n rewards g held acc = Inr rs \<and>
     set rs = set acc \<union>
       {rid. \<exists>d r. (d, r) \<in> set rewards \<and> d \<le> n \<and> py_int r = Some rid \<and>
                    rid \<in> set (roles g) \<and> rid \<notin> set held}"
  using assms
proof (induction rewards arbitrary: acc)
  case Nil
  then show ?case by simp
next
  case (Cons x rewards)
  obtain d r where x: "x = (d, r)" by (cases x)
  from Cons.prems have rest: "\<forall>(d, r) \<in> set rewards. d \<le> n \<longrightarrow> py_int r \<noteq> None"
    by simp
  show ?case
  proof (cases "d \<le> n")
    case False
    then have "{rid. d \<le> n \<and> py_int r = Some rid \<and> rid \<in> set (roles g) \<and> rid \<notin> set held} = {}"
      by simp
    with Cons.IH [OF rest, of acc] False show ?thesis
      unfolding x granted_Cons by simp
  next
    case True
    with Cons.prems x obtain rid where rid: "py_int r = Some rid" by auto
    show ?thesis
    proof (cases "rid \<in> set (roles g) \<and> rid \<notin> set held")
      case True
      with rid \<open>d \<le> n\<close>
      have "{rid. d \<le> n \<and> py_int r = Some rid \<and> rid \<in> set (roles g) \<and> rid \<notin> set held} = {rid}"
        by auto
      with Cons.IH [OF rest, of "acc @ [rid]"] rid \<open>d \<le> n\<close> True show ?thesis
        unfolding x granted_Cons by (simp add: get_role_def)
    next
      case False
      with rid
      have "{rid. d \<le> n \<and> py_int r = Some rid \<and> rid \<in> set (roles g) \<and> rid \<notin> set held} = {}"
        by auto
      with Cons.IH [OF rest, of acc] rid \<open>d \<le> n\<close> False show ?thesis
        unfolding x granted_Cons by (auto simp: get_role_def)
    qed
  qed
qed

text \<open>
  Claim C7, as stated: the roles granted are all roles of thresholds reached that the
  member does not hold. With the reward \<open>5 \<mapsto> 101\<close>, a streak of 10 and a member
  holding no role, the claim grants role 101; the guild has no role 101 any more
  (\<^verbatim>\<open>get_role\<close> returns \<^verbatim>\<open>None\<close>), and the bot grants nothing.
\<close>

theorem reward_roles_unresolved_counterexample:
  "fst (get_role_rewards
     \<lparr>guilds = [(''1'', \<lparr>streak_channel_id = None, users = [],
         role_rewards = [(''5'', ''101'')]\<rparr>)], disk = None\<rparr> ''1'') = Inr [(5, ''101'')] \<and>
   py_int ''101'' = Some 101 \<and> (5::int) \<le> 10 \<and>
   get_member \<lparr>roles = [], members = [(7, [])]\<rparr> 7 = Some [] \<and>
   fst (reward_roles
     \<lparr>guilds = [(''1'', \<lparr>streak_channel_id = None, users = [],
         role_rewards = [(''5'', ''101'')]\<rparr>)], disk = None\<rparr>
     \<lparr>roles = [], members = [(7, [])]\<rparr> ''1'' ''7'' 10) = []"
  by (simp add: reward_roles_def get_role_rewards_def ensure_guild_def Let_def get_member_def
      get_role_def isdigit_def digit_val_def py_int_def digits_val_def)

text \<open>
  Claim C7, amended. For a member of the guild, the set of roles handed to
  \<^verbatim>\<open>member.add_roles\<close> is exactly the set of role ids that belong to a threshold the
  streak has reached, resolve to a role of the guild, and are not held by the member;
  all such roles are granted together. (The role ids of the thresholds reached are
  decimal integers, as \<^verbatim>\<open>add_role\<close> stores them.)
\<close>

theorem reward_roles_granted:
  assumes "fst (get_role_rewards s guild_id) = Inr rewards"
    and "py_int user_id = Some uid"
    and "get_member g uid = Some held"
    and "\<forall>(d, r) \<in> set rewards. d \<le> n \<longrightarrow> py_int r \<noteq> None"
  shows "set (fst (reward_roles s g guild_id user_id n)) =
     {rid. \<exists>d r. (d, r) \<in> set rewards \<and> d \<le> n \<and> py_int r = Some rid \<and>
                  rid \<in> set (roles g) \<and> rid \<notin> set held}"
proof -
  from roles_to_add_set [OF assms(4), of g held "[]"] obtain rs where
    rs: "roles_to_add n rewards g held [] = Inr rs"
      "set rs = {rid. \<exists>d r. (d, r) \<in> set rewards \<and> d \<le> n \<and> py_int r = Some rid \<and>
                  rid \<in> set (roles g) \<and> rid \<notin> set held}"
    by auto
  obtain s1 where g: "get_role_rewards s guild_id = (Inr rewards, s1)"
    using assms(1) by (cases "get_role_rewards s guild_id") simp
  show ?thesis
  proof (cases "rewards = []")
    case True
    with g show ?thesis by (simp add: reward_roles_def)
  next
    case False
    with g assms(2,3) rs show ?thesis by (simp add: reward_roles_def)
  qed
qed

theorem reward_roles_granted_witness:
  "set (fst (reward_roles
     \<lparr>guilds = [(''1'', \<lparr>streak_channel_id = None, users = [],
         role_rewards = [(''5'', ''101''), (''10'', ''102''), (''20'', ''103'')]\<rparr>)], disk = None\<rparr>
     \<lparr>roles = [101, 102, 103], members = [(7, [101])]\<rparr> ''1'' ''7'' 10)) = {102}"
  using reward_roles_granted
    [of "\<lparr>guilds = [(''1'', \<lparr>streak_channel_id = None, users = [],
         role_rewards = [(''5'', ''101''), (''10'', ''102''), (''20'', ''103'')]\<rparr>)], disk = None\<rparr>"
        "''1''" "[(5, ''101''), (10, ''102''), (20, ''103'')]" "''7''" 7
        "\<lparr>roles = [101, 102, 103], members = [(7, [101])]\<rparr>" "[101]" 10]
  by (simp add: reward_roles_def get_role_rewards_def ensure_guild_def Let_def get_member_def
      get_role_def isdigit_def digit_val_def py_int_def digits_val_def)

section \<open>The inactivity sweeper\<close>


















end
